theory Spec2Isabelle
  imports Main "HOL-Library.AList"
begin

section \<open>The connection pool of \<open>streamlit/utils/databricks_client.py\<close>\<close>

text \<open>
  The pool is the class \<open>ConnectionPool\<close>; the client that uses it is
  \<open>DatabricksClient\<close>. Both talk to an external driver (\<open>connect\<close>, a cursor's
  \<open>execute\<close>, a connection's \<open>close\<close>). What the driver answers is not decided by
  the program, so every operation of the model takes the driver's answers as arguments
  and the pool records the driver calls it made.
\<close>

subsection \<open>Data\<close>

text \<open>A connection object is an opaque handle; only its identity matters.\<close>

type_synonym connection = nat

text \<open>
  The exceptions that occur: \<open>TimeoutException\<close> is the class the module defines,
  \<open>Empty\<close> and \<open>Full\<close> are those of the standard \<open>queue\<close> module, \<open>IndexError\<close> is
  raised by indexing a row, and \<open>DriverError\<close> stands for any exception raised by the
  driver (with its message).
\<close>

datatype exn = TimeoutException | Empty | Full | IndexError | DriverError string

text \<open>A driver call that returns nothing: \<open>None\<close> when it returns, \<open>Some e\<close> when it raises.\<close>

type_synonym outcome = "exn option"

datatype call = Connect | Probe connection | Close connection | Execute connection

text \<open>
  The fields of \<open>ConnectionPool\<close> that change or decide a branch: \<open>max_connections\<close>,
  the queue \<open>pool\<close> (first element = next one out) and the counter
  \<open>active_connections\<close>. Python integers are unbounded, and the counter can become
  negative, so both numbers are \<open>int\<close>. \<open>calls\<close> is the list of driver calls made so
  far, oldest first.
\<close>

record connection_pool =
  max_connections :: int
  pool :: "connection list"
  active_connections :: int
  calls :: "call list"

text \<open>\<open>ConnectionPool.__init__\<close>: an empty queue of capacity \<open>max_connections\<close>, counter 0.\<close>

definition connection_pool_init :: "int \<Rightarrow> connection_pool" where
  "connection_pool_init n =
     \<lparr>max_connections = n, pool = [], active_connections = 0, calls = []\<rparr>"

subsection \<open>The queue\<close>

text \<open>
  \<open>queue.Queue(maxsize)\<close>: a FIFO; a \<open>maxsize\<close> of zero or less means no bound.
\<close>

definition queue_full :: "int \<Rightarrow> 'a list \<Rightarrow> bool" where
  "queue_full maxsize q = (0 < maxsize \<and> maxsize \<le> int (length q))"

text \<open>\<open>put(item, block=False)\<close>\<close>

definition queue_put_nowait :: "int \<Rightarrow> 'a list \<Rightarrow> 'a \<Rightarrow> exn + 'a list" where
  "queue_put_nowait maxsize q x = (if queue_full maxsize q then Inl Full else Inr (q @ [x]))"

text \<open>\<open>get(block=False)\<close>\<close>

definition queue_get_nowait :: "'a list \<Rightarrow> exn + ('a \<times> 'a list)" where
  "queue_get_nowait q = (case q of [] \<Rightarrow> Inl Empty | x # xs \<Rightarrow> Inr (x, xs))"

text \<open>
  \<open>get(block=True, timeout=t)\<close>: an element of the queue is returned at once. On an empty
  queue the caller waits; \<open>waited\<close> is what the wait brings: \<open>Some x\<close> when another
  caller puts \<open>x\<close> before the timeout (it is taken at once, the queue is empty again),
  \<open>None\<close> when the timeout elapses first. The timeout is \<open>connection_timeout\<close>, a
  number of seconds that is not negative (30 unless the constructor is told otherwise);
  time itself is not part of the model.
\<close>

definition queue_get_timeout :: "'a list \<Rightarrow> 'a option \<Rightarrow> exn + ('a \<times> 'a list)" where
  "queue_get_timeout q waited =
     (case q of
        x # xs \<Rightarrow> Inr (x, xs)
      | [] \<Rightarrow> (case waited of Some x \<Rightarrow> Inr (x, []) | None \<Rightarrow> Inl Empty))"

subsection \<open>\<open>ConnectionPool.get_connection\<close>\<close>

text \<open>The statement \<open>self.active_connections += 1\<close> and its inverse.\<close>

definition incr_active :: "connection_pool \<Rightarrow> connection_pool" where
  "incr_active s = s\<lparr>active_connections := active_connections s + 1\<rparr>"

definition decr_active :: "connection_pool \<Rightarrow> connection_pool" where
  "decr_active s = s\<lparr>active_connections := active_connections s - 1\<rparr>"

definition record_call :: "call \<Rightarrow> connection_pool \<Rightarrow> connection_pool" where
  "record_call c s = s\<lparr>calls := calls s @ [c]\<rparr>"

text \<open>
  \<open>connect_res\<close> is what \<open>connect(...)\<close> does if it is called: it returns a new
  connection or raises. \<open>waited\<close> is what the blocking \<open>get\<close> meets if it is reached.
  The result is the returned connection or the exception that leaves the method.
\<close>

definition get_connection ::
  "exn + connection \<Rightarrow> connection option \<Rightarrow> connection_pool
     \<Rightarrow> (exn + connection) \<times> connection_pool" where
  "get_connection connect_res waited s =
     (case queue_get_nowait (pool s) of
        Inr (c, q) \<Rightarrow> (Inr c, s\<lparr>pool := q\<rparr>)
      | Inl _ \<Rightarrow>
          if active_connections s < max_connections s then
            (let s1 = record_call Connect (incr_active s) in
             case connect_res of
               Inr c \<Rightarrow> (Inr c, s1)
             | Inl e \<Rightarrow> (Inl e, decr_active s1))
          else
            (case queue_get_timeout (pool s) waited of
               Inr (c, q) \<Rightarrow> (Inr c, s\<lparr>pool := q\<rparr>)
             | Inl _ \<Rightarrow> (Inl TimeoutException, s)))"

subsection \<open>\<open>ConnectionPool.release_connection\<close>\<close>

text \<open>
  \<open>probe\<close> is the outcome of the three cursor statements (\<open>SELECT 1\<close>), \<open>close_res\<close>
  that of \<open>connection.close()\<close> if it is called. The outer \<open>try\<close> covers the probe and
  the \<open>put\<close>, so a full queue takes the same handler as a dead connection. The handler
  swallows what \<open>close\<close> raises, and nothing else can raise: the method always returns.
\<close>

definition release_connection ::
  "connection \<Rightarrow> outcome \<Rightarrow> outcome \<Rightarrow> connection_pool \<Rightarrow> (exn + unit) \<times> connection_pool" where
  "release_connection c probe close_res s =
     (let s1 = record_call (Probe c) s;
          tried = (case probe of
                     Some e \<Rightarrow> Inl e
                   | None \<Rightarrow> queue_put_nowait (max_connections s1) (pool s1) c)
      in case tried of
           Inr q \<Rightarrow> (Inr (), s1\<lparr>pool := q\<rparr>)
         | Inl _ \<Rightarrow>
             (let s2 = record_call (Close c) s1
              in case close_res of
                   Some _ \<Rightarrow> (Inr (), decr_active s2)
                 | None \<Rightarrow> (Inr (), decr_active s2)))"

subsection \<open>\<open>ConnectionPool.close_all\<close>\<close>

text \<open>
  The \<open>while\<close> loop. \<open>close_res c\<close> is the outcome of \<open>c.close()\<close>, which stands in the
  same \<open>try\<close> as the \<open>get\<close>. When it raises \<open>queue.Empty\<close>, the handler \<open>except Empty\<close>
  takes it and leaves the loop; the connections behind \<open>c\<close> stay in the queue. Any
  other exception goes to \<open>except Exception\<close>, which logs, and the loop goes on. In both
  cases the decrement, which stands after \<open>close\<close> inside the \<open>try\<close>, is skipped.
\<close>

function close_all :: "(connection \<Rightarrow> outcome) \<Rightarrow> connection_pool \<Rightarrow> connection_pool" where
  "close_all close_res s =
     (if pool s = [] then s
      else
        (case queue_get_nowait (pool s) of
           Inl _ \<Rightarrow> s
         | Inr (c, q) \<Rightarrow>
             (let s1 = record_call (Close c) (s\<lparr>pool := q\<rparr>) in
              case close_res c of
                None \<Rightarrow> close_all close_res (decr_active s1)
              | Some e \<Rightarrow> if e = Empty then s1 else close_all close_res s1)))"
  by pat_completeness auto
termination
  by (relation "measure (\<lambda>(close_res, s). length (pool s))")
     (auto simp: queue_get_nowait_def record_call_def decr_active_def split: list.splits)

declare close_all.simps [simp del]

text \<open>A driver whose \<open>close\<close> returns for every connection.\<close>

definition close_returns :: "connection \<Rightarrow> outcome" where
  "close_returns c = None"

text \<open>A driver whose \<open>close\<close> raises \<open>queue.Empty\<close> for every connection.\<close>

definition close_raises_Empty :: "connection \<Rightarrow> outcome" where
  "close_raises_Empty c = Some Empty"

subsection \<open>\<open>DatabricksClient.execute_query\<close>\<close>

text \<open>
  A result row is indexed by position. The inner loop stores \<open>row[i]\<close> under the
  \<open>i\<close>-th column name; a dictionary keeps the position of a key that is stored again,
  as \<open>AList.update\<close> does. A row shorter than the column list raises \<open>IndexError\<close>.
\<close>

fun row_dict :: "string list \<Rightarrow> 'v list \<Rightarrow> (string \<times> 'v) list \<Rightarrow> exn + (string \<times> 'v) list" where
  "row_dict [] row d = Inr d"
| "row_dict (col_name # cols) [] d = Inl IndexError"
| "row_dict (col_name # cols) (v # vs) d = row_dict cols vs (AList.update col_name v d)"

text \<open>The outer loop: one dictionary per row, in the order of the rows.\<close>

fun result_dicts :: "string list \<Rightarrow> 'v list list \<Rightarrow> exn + (string \<times> 'v) list list" where
  "result_dicts columns [] = Inr []"
| "result_dicts columns (row # rows) =
     (case row_dict columns row [] of
        Inl e \<Rightarrow> Inl e
      | Inr d \<Rightarrow>
          (case result_dicts columns rows of
             Inl e \<Rightarrow> Inl e
           | Inr ds \<Rightarrow> Inr (d # ds)))"

text \<open>
  \<open>if params:\<close> holds for a non-empty tuple only; otherwise \<open>execute\<close> gets the query
  alone.
\<close>

definition truthy_params :: "'v list option \<Rightarrow> 'v list option" where
  "truthy_params params = (case params of Some (p # ps) \<Rightarrow> Some (p # ps) | _ \<Rightarrow> None)"

text \<open>
  \<open>cursor_res query params\<close> is what the cursor does with the query: it raises, or it
  yields \<open>cursor.description\<close> (the column names, or \<open>None\<close>) and the rows of
  \<open>fetchall()\<close>. The other arguments are those of \<open>get_connection\<close> and
  \<open>release_connection\<close>. When \<open>get_connection\<close> raises, \<open>connection\<close> is still \<open>None\<close>
  and the \<open>finally\<close> block releases nothing. A connection object is truthy.
\<close>

definition execute_query ::
  "string \<Rightarrow> 'v list option
     \<Rightarrow> exn + connection \<Rightarrow> connection option
     \<Rightarrow> (string \<Rightarrow> 'v list option \<Rightarrow> exn + (string list option \<times> 'v list list))
     \<Rightarrow> outcome \<Rightarrow> outcome
     \<Rightarrow> connection_pool \<Rightarrow> (exn + (string \<times> 'v) list list) \<times> connection_pool" where
  "execute_query query params connect_res waited cursor_res probe close_res s =
     (case get_connection connect_res waited s of
        (Inl e, s1) \<Rightarrow> (Inl e, s1)
      | (Inr connection, s1) \<Rightarrow>
          (let s2 = record_call (Execute connection) s1;
               returned =
                 (case cursor_res query (truthy_params params) of
                    Inl e \<Rightarrow> Inl e
                  | Inr (description, rows) \<Rightarrow>
                      result_dicts (case description of Some names \<Rightarrow> names | None \<Rightarrow> []) rows)
           in (returned, snd (release_connection connection probe close_res s2))))"

subsection \<open>Sequences of calls\<close>

text \<open>
  A call of \<open>get_connection\<close> or \<open>release_connection\<close> together with the driver's
  answers during the call.
\<close>

datatype op =
    Get "exn + connection" "connection option"
  | Release connection outcome outcome

fun step :: "op \<Rightarrow> connection_pool \<Rightarrow> connection_pool" where
  "step (Get connect_res waited) s = snd (get_connection connect_res waited s)"
| "step (Release c probe close_res) s = snd (release_connection c probe close_res s)"

fun run :: "op list \<Rightarrow> connection_pool \<Rightarrow> connection_pool" where
  "run [] s = s"
| "run (x # xs) s = run xs (step x s)"

text \<open>
  The states a call passes through before it ends: \<open>get_connection\<close> raises the counter
  before it calls \<open>connect\<close>, and lowers it again when \<open>connect\<close> fails.
\<close>

fun during :: "op \<Rightarrow> connection_pool \<Rightarrow> connection_pool list" where
  "during (Get connect_res waited) s =
     (if pool s = [] \<and> active_connections s < max_connections s
      then [incr_active s, record_call Connect (incr_active s)] else [])"
| "during (Release c probe close_res) s = [record_call (Probe c) s]"

text \<open>Every state of a sequence of calls: before, during and after each call.\<close>

fun trace :: "op list \<Rightarrow> connection_pool \<Rightarrow> connection_pool list" where
  "trace [] s = [s]"
| "trace (x # xs) s = s # during x s @ trace xs (step x s)"

definition bounded :: "connection_pool \<Rightarrow> bool" where
  "bounded s = (active_connections s \<le> max_connections s)"

section \<open>Properties\<close>

text \<open>
  \<open>release_connection\<close> has two outcomes, and what \<open>close\<close> does changes neither.
\<close>

lemma release_connection_eq:
  "release_connection c probe close_res s =
     (Inr (),
      if probe = None \<and> \<not> queue_full (max_connections s) (pool s)
      then s\<lparr>pool := pool s @ [c], calls := calls s @ [Probe c]\<rparr>
      else s\<lparr>active_connections := active_connections s - 1,
             calls := calls s @ [Probe c, Close c]\<rparr>)"
  by (simp add: release_connection_def queue_put_nowait_def record_call_def decr_active_def
        Let_def split: option.splits)

lemmas pool_defs =
  get_connection_def release_connection_eq queue_get_nowait_def queue_get_timeout_def
  queue_put_nowait_def queue_full_def record_call_def incr_active_def decr_active_def

subsection \<open>The counter never exceeds the maximum\<close>

lemma step_max_connections: "max_connections (step x s) = max_connections s"
  by (cases x)
     (auto simp: pool_defs Let_def split: list.splits sum.splits option.splits)

lemma step_bounded: "bounded s \<Longrightarrow> bounded (step x s)"
  by (cases x)
     (auto simp: bounded_def pool_defs Let_def split: list.splits sum.splits option.splits)

lemma during_bounded:
  "bounded s \<Longrightarrow> t \<in> set (during x s) \<Longrightarrow> bounded t \<and> max_connections t = max_connections s"
  by (cases x) (auto simp: bounded_def record_call_def incr_active_def split: if_splits)

lemma trace_bounded:
  "bounded s \<Longrightarrow> t \<in> set (trace xs s) \<Longrightarrow> bounded t \<and> max_connections t = max_connections s"
proof (induction xs arbitrary: s)
  case Nil
  then show ?case by simp
next
  case (Cons x xs)
  from Cons.prems(2) consider
    "t = s" | "t \<in> set (during x s)" | "t \<in> set (trace xs (step x s))"
    by auto
  then show ?case
  proof cases
    case 1
    with Cons.prems(1) show ?thesis by simp
  next
    case 2
    with Cons.prems(1) show ?thesis by (simp add: during_bounded)
  next
    case 3
    from Cons.IH [OF step_bounded [OF Cons.prems(1)] 3] show ?thesis
      by (simp add: step_max_connections)
  qed
qed

text \<open>
  The states listed for a \<open>get_connection\<close> that opens a connection lead to the state
  it ends in.
\<close>

lemma get_connection_after_during:
  "pool s = [] \<Longrightarrow> active_connections s < max_connections s \<Longrightarrow>
   snd (get_connection connect_res waited s) =
     (case connect_res of
        Inr c \<Rightarrow> last (during (Get connect_res waited) s)
      | Inl e \<Rightarrow> decr_active (last (during (Get connect_res waited) s)))"
  by (simp add: get_connection_def queue_get_nowait_def split: sum.splits)

lemma trace_not_Nil: "trace xs s \<noteq> []"
  by (cases xs) simp_all

lemma last_trace: "last (trace xs s) = run xs s"
  by (induction xs arbitrary: s) (simp_all add: trace_not_Nil)

text \<open>
  C1. A pool is constructed with \<open>max_connections = n\<close>, \<open>n\<close> not negative. In every
  sequence of \<open>get_connection\<close> and \<open>release_connection\<close> calls, whatever the driver
  answers, \<open>active_connections\<close> is at most \<open>n\<close> in every state of the sequence: between
  the calls, and inside a call after the counter was raised.
\<close>

theorem active_connections_le_max:
  assumes "0 \<le> n"
  shows "\<forall>t \<in> set (trace xs (connection_pool_init n)). active_connections t \<le> n"
proof
  fix t
  assume t: "t \<in> set (trace xs (connection_pool_init n))"
  from assms have "bounded (connection_pool_init n)"
    by (simp add: bounded_def connection_pool_init_def)
  from trace_bounded [OF this t] show "active_connections t \<le> n"
    by (simp add: bounded_def connection_pool_init_def)
qed

theorem active_connections_le_max_witness:
  "(0::int) \<le> 2 \<and>
   run [Get (Inr 1) None, Get (Inl (DriverError ''refused'')) None, Get (Inr 2) None,
        Get (Inr 3) None, Release 1 None None]
     (connection_pool_init 2)
     = \<lparr>max_connections = 2, pool = [1], active_connections = 2,
        calls = [Connect, Connect, Connect, Probe 1]\<rparr> \<and>
   active_connections
     (run [Get (Inr 1) None, Get (Inl (DriverError ''refused'')) None, Get (Inr 2) None,
           Get (Inr 3) None, Release 1 None None]
        (connection_pool_init 2)) \<le> 2"
proof -
  let ?xs = "[Get (Inr 1) None, Get (Inl (DriverError ''refused'')) None, Get (Inr 2) None,
        Get (Inr 3) None, Release 1 None None]"
  have "run ?xs (connection_pool_init 2) \<in> set (trace ?xs (connection_pool_init 2))"
    using last_in_set [OF trace_not_Nil, of ?xs "connection_pool_init 2"]
    by (simp only: last_trace)
  with active_connections_le_max [of 2 ?xs]
  have "active_connections (run ?xs (connection_pool_init 2)) \<le> 2"
    by simp
  moreover have "run ?xs (connection_pool_init 2)
     = \<lparr>max_connections = 2, pool = [1], active_connections = 2,
        calls = [Connect, Connect, Connect, Probe 1]\<rparr>"
    by (simp add: pool_defs connection_pool_init_def)
  ultimately show ?thesis by simp
qed

subsection \<open>Releasing the same connection twice\<close>

text \<open>
  C2 fails as stated. A pool of capacity 2 hands out connection 7, which is then released
  twice with a successful probe: the second call returns normally and the queue holds
  7 twice. With two failing probes the counter goes from 1 to -1.
\<close>

theorem double_release_counterexample:
  "run [Get (Inr 7) None, Release 7 None None, Release 7 None None] (connection_pool_init 2)
     = \<lparr>max_connections = 2, pool = [7, 7], active_connections = 1,
        calls = [Connect, Probe 7, Probe 7]\<rparr> \<and>
   fst (release_connection 7 None None
          (run [Get (Inr 7) None, Release 7 None None] (connection_pool_init 2))) = Inr () \<and>
   active_connections
     (run [Get (Inr 7) None, Release 7 (Some (DriverError ''dead'')) None,
           Release 7 (Some (DriverError ''closed'')) None] (connection_pool_init 2)) = - 1"
  by (simp add: pool_defs connection_pool_init_def)

text \<open>
  C2, amended. \<open>release_connection\<close> does not detect a second release of the same
  connection: the second call returns normally and is treated like the first. When both
  probes succeed and the queue has room for two more, the connection is enqueued twice
  and the counter is unchanged; when both probes fail, the counter is lowered twice.
\<close>

theorem double_release_unguarded:
  "fst (release_connection c probe2 close2 (snd (release_connection c probe1 close1 s))) = Inr () \<and>
   (\<not> queue_full (max_connections s) (pool s @ [c]) \<longrightarrow>
      snd (release_connection c None close2 (snd (release_connection c None close1 s)))
        = s\<lparr>pool := pool s @ [c, c], calls := calls s @ [Probe c, Probe c]\<rparr>) \<and>
   snd (release_connection c (Some e2) close2 (snd (release_connection c (Some e1) close1 s)))
        = s\<lparr>active_connections := active_connections s - 2,
            calls := calls s @ [Probe c, Close c, Probe c, Close c]\<rparr>"
  by (auto simp: pool_defs Let_def split: option.splits sum.splits)

theorem double_release_unguarded_witness:
  "\<not> queue_full 5 ([4] @ [9]) \<and>
   snd (release_connection 9 None None (snd (release_connection 9 None None
       \<lparr>max_connections = 5, pool = [4], active_connections = 2, calls = []\<rparr>)))
     = \<lparr>max_connections = 5, pool = [4, 9, 9], active_connections = 2,
        calls = [Probe 9, Probe 9]\<rparr> \<and>
   snd (release_connection 9 (Some Empty) None (snd (release_connection 9 (Some Empty) None
       \<lparr>max_connections = 5, pool = [4], active_connections = 2, calls = []\<rparr>)))
     = \<lparr>max_connections = 5, pool = [4], active_connections = 0,
        calls = [Probe 9, Close 9, Probe 9, Close 9]\<rparr>"
  using double_release_unguarded
    [where s = "\<lparr>max_connections = 5, pool = [4], active_connections = 2, calls = []\<rparr>"
       and c = 9 and ?close1.0 = None and ?close2.0 = None and ?e1.0 = Empty and ?e2.0 = Empty]
  by (simp add: queue_full_def)

subsection \<open>Errors of \<open>get_connection\<close>\<close>

text \<open>
  C3. The queue is empty, the counter has reached \<open>max_connections\<close> and the wait brings
  nothing: \<open>get_connection\<close> raises \<open>TimeoutException\<close> and the pool is as it was.
\<close>

theorem get_connection_timeout:
  assumes "pool s = []" and "max_connections s \<le> active_connections s"
  shows "get_connection connect_res None s = (Inl TimeoutException, s)"
  using assms by (simp add: pool_defs)

theorem get_connection_timeout_witness:
  "get_connection (Inr 2) None
     \<lparr>max_connections = 1, pool = [], active_connections = 1, calls = [Connect]\<rparr>
   = (Inl TimeoutException,
      \<lparr>max_connections = 1, pool = [], active_connections = 1, calls = [Connect]\<rparr>)"
  using get_connection_timeout
    [of "\<lparr>max_connections = 1, pool = [], active_connections = 1, calls = [Connect]\<rparr>" "Inr 2"]
  by simp

text \<open>
  C4. The queue is empty and the counter is below \<open>max_connections\<close>, so \<open>connect\<close> is
  called; it raises \<open>e\<close>. Then \<open>e\<close> leaves \<open>get_connection\<close>, the pool differs from
  the one before only by the recorded call, in particular the counter has its old
  value, and a later \<open>get_connection\<close> whose \<open>connect\<close> returns \<open>c\<close> returns \<open>c\<close>.
\<close>

theorem get_connection_connect_fails:
  assumes "pool s = []" and "active_connections s < max_connections s"
  shows "get_connection (Inl e) waited s = (Inl e, record_call Connect s) \<and>
         active_connections (snd (get_connection (Inl e) waited s)) = active_connections s \<and>
         get_connection (Inr c) waited' (snd (get_connection (Inl e) waited s))
           = (Inr c, record_call Connect (incr_active (record_call Connect s)))"
  using assms by (simp add: pool_defs)

theorem get_connection_connect_fails_witness:
  "get_connection (Inl (DriverError ''unreachable'')) None (connection_pool_init 1)
     = (Inl (DriverError ''unreachable''),
        \<lparr>max_connections = 1, pool = [], active_connections = 0, calls = [Connect]\<rparr>) \<and>
   get_connection (Inr 5) None
       (snd (get_connection (Inl (DriverError ''unreachable'')) None (connection_pool_init 1)))
     = (Inr 5,
        \<lparr>max_connections = 1, pool = [], active_connections = 1, calls = [Connect, Connect]\<rparr>)"
  using get_connection_connect_fails
    [of "connection_pool_init 1" "DriverError ''unreachable''" None 5 None]
  by (simp add: connection_pool_init_def pool_defs)

subsection \<open>\<open>release_connection\<close>\<close>

text \<open>
  C5. When the probe of a released connection raises, \<open>release_connection\<close> calls
  \<open>close\<close> on it, leaves the queue as it is (the connection is not enqueued), lowers
  the counter by exactly one and returns normally, whatever \<open>close\<close> does.
\<close>

theorem release_connection_probe_fails:
  "release_connection c (Some e) close_res s
     = (Inr (), s\<lparr>active_connections := active_connections s - 1,
                  calls := calls s @ [Probe c, Close c]\<rparr>)"
  by (simp add: pool_defs)

theorem release_connection_probe_fails_witness:
  "release_connection 3 (Some (DriverError ''session expired'')) (Some (DriverError ''broken pipe''))
     \<lparr>max_connections = 2, pool = [8], active_connections = 2, calls = []\<rparr>
   = (Inr (), \<lparr>max_connections = 2, pool = [8], active_connections = 1,
               calls = [Probe 3, Close 3]\<rparr>)"
  using release_connection_probe_fails
    [of 3 "DriverError ''session expired''" "Some (DriverError ''broken pipe'')"
        "\<lparr>max_connections = 2, pool = [8], active_connections = 2, calls = []\<rparr>"]
  by simp

text \<open>
  C10. The probe succeeds but the queue is full (it holds \<open>max_connections\<close> or more
  connections, \<open>max_connections\<close> positive): \<open>put\<close> raises \<open>Full\<close>, the handler for an
  invalid connection runs, so the connection is not enqueued, \<open>close\<close> is called on it,
  the counter is lowered by one, and the method returns normally.
\<close>

theorem release_connection_queue_full:
  assumes "0 < max_connections s" and "max_connections s \<le> int (length (pool s))"
  shows "queue_put_nowait (max_connections s) (pool s) c = Inl Full \<and>
         release_connection c None close_res s
           = (Inr (), s\<lparr>active_connections := active_connections s - 1,
                        calls := calls s @ [Probe c, Close c]\<rparr>)"
  using assms by (simp add: pool_defs)

theorem release_connection_queue_full_witness:
  "(0::int) < 1 \<and> (1::int) \<le> int (length [6::nat]) \<and>
   release_connection 6 None None
     \<lparr>max_connections = 1, pool = [6], active_connections = 1, calls = [Connect, Probe 6]\<rparr>
   = (Inr (), \<lparr>max_connections = 1, pool = [6], active_connections = 0,
               calls = [Connect, Probe 6, Probe 6, Close 6]\<rparr>)"
  using release_connection_queue_full
    [of "\<lparr>max_connections = 1, pool = [6], active_connections = 1, calls = [Connect, Probe 6]\<rparr>"
        6 None]
  by simp

text \<open>
  C6 fails as stated. A pool of capacity 2 hands out connections 1 and 2; 1 is released,
  then 2, both with a successful probe. The queue is then \<open>[1, 2]\<close>, and the next
  \<open>get_connection\<close> returns 1, not the connection 2 that was released last.
\<close>

theorem release_then_get_counterexample:
  "snd (release_connection 2 None None
          (run [Get (Inr 1) None, Get (Inr 2) None, Release 1 None None] (connection_pool_init 2)))
     = \<lparr>max_connections = 2, pool = [1, 2], active_connections = 2,
        calls = [Connect, Connect, Probe 1, Probe 2]\<rparr> \<and>
   fst (get_connection (Inr 3) None
          (snd (release_connection 2 None None
             (run [Get (Inr 1) None, Get (Inr 2) None, Release 1 None None]
                (connection_pool_init 2))))) = Inr 1"
  by (simp add: pool_defs connection_pool_init_def)

text \<open>
  C6, amended. When the probe of a released connection \<open>c\<close> succeeds and the queue is
  not full, \<open>release_connection\<close> appends \<open>c\<close> to the queue and leaves the counter
  unchanged. The next \<open>get_connection\<close> returns the connection at the head of the queue,
  which is \<open>c\<close> when the queue was empty before the release. It does so whatever
  \<open>connect\<close> or a wait would do, and makes no driver call: no blocking, no validation,
  no new connection.
\<close>

theorem release_then_get:
  assumes "\<not> queue_full (max_connections s) (pool s)"
  shows "release_connection c None close_res s
           = (Inr (), s\<lparr>pool := pool s @ [c], calls := calls s @ [Probe c]\<rparr>) \<and>
         get_connection connect_res waited (snd (release_connection c None close_res s))
           = (Inr (hd (pool s @ [c])),
              s\<lparr>pool := tl (pool s @ [c]), calls := calls s @ [Probe c]\<rparr>) \<and>
         (pool s = [] \<longrightarrow>
            fst (get_connection connect_res waited (snd (release_connection c None close_res s)))
              = Inr c)"
proof -
  let ?s' = "s\<lparr>pool := pool s @ [c], calls := calls s @ [Probe c]\<rparr>"
  have rel: "release_connection c None close_res s = (Inr (), ?s')"
    using assms by (simp add: release_connection_eq)
  have get: "get_connection connect_res waited ?s'
      = (Inr (hd (pool s @ [c])), s\<lparr>pool := tl (pool s @ [c]), calls := calls s @ [Probe c]\<rparr>)"
    by (cases "pool s") (simp_all add: get_connection_def queue_get_nowait_def)
  show ?thesis
    by (simp add: rel get) (simp add: get_connection_def queue_get_nowait_def)
qed

theorem release_then_get_witness:
  "\<not> queue_full 1 ([]::connection list) \<and>
   release_connection 4 None None
       \<lparr>max_connections = 1, pool = [], active_connections = 1, calls = [Connect]\<rparr>
     = (Inr (), \<lparr>max_connections = 1, pool = [4], active_connections = 1,
                 calls = [Connect, Probe 4]\<rparr>) \<and>
   get_connection (Inl (DriverError ''unreachable'')) None
       (snd (release_connection 4 None None
          \<lparr>max_connections = 1, pool = [], active_connections = 1, calls = [Connect]\<rparr>))
     = (Inr 4, \<lparr>max_connections = 1, pool = [], active_connections = 1,
                calls = [Connect, Probe 4]\<rparr>)"
  using release_then_get
    [of "\<lparr>max_connections = 1, pool = [], active_connections = 1, calls = [Connect]\<rparr>"
        4 None "Inl (DriverError ''unreachable'')" None]
  by (simp add: pool_defs)

subsection \<open>\<open>close_all\<close>\<close>

lemma close_all_Nil: "pool s = [] \<Longrightarrow> close_all close_res s = s"
  by (subst close_all.simps) simp

lemma close_all_Cons:
  "pool s = c # q \<Longrightarrow>
   close_all close_res s =
     (case close_res c of
        None \<Rightarrow> close_all close_res (decr_active (record_call (Close c) (s\<lparr>pool := q\<rparr>)))
      | Some e \<Rightarrow>
          if e = Empty then record_call (Close c) (s\<lparr>pool := q\<rparr>)
          else close_all close_res (record_call (Close c) (s\<lparr>pool := q\<rparr>)))"
  by (subst close_all.simps) (simp add: queue_get_nowait_def Let_def)

text \<open>
  The loop in closed form. It takes connections from the queue up to and including the
  first one whose \<open>close\<close> raises \<open>Empty\<close>, calls \<open>close\<close> on each of them in queue order,
  and lowers the counter once for each \<open>close\<close> that returned; the connections behind
  stay in the queue.
\<close>

lemma close_all_eq:
  "pool s = q \<Longrightarrow>
   close_all close_res s =
     s\<lparr>pool := tl (dropWhile (\<lambda>c. close_res c \<noteq> Some Empty) q),
       active_connections :=
         active_connections s
           - int (length (filter (\<lambda>c. close_res c = None)
                    (takeWhile (\<lambda>c. close_res c \<noteq> Some Empty) q))),
       calls := calls s @ map Close (takeWhile (\<lambda>c. close_res c \<noteq> Some Empty) q
                                      @ take 1 (dropWhile (\<lambda>c. close_res c \<noteq> Some Empty) q))\<rparr>"
proof (induction q arbitrary: s)
  case Nil
  then show ?case by (simp add: close_all_Nil)
next
  case (Cons c q)
  let ?s1 = "record_call (Close c) (s\<lparr>pool := q\<rparr>)"
  have p1: "pool ?s1 = q" and p2: "pool (decr_active ?s1) = q"
    by (simp_all add: record_call_def decr_active_def)
  show ?case
  proof (cases "close_res c")
    case None
    with Cons.IH [OF p2] close_all_Cons [OF Cons.prems, of close_res]
    show ?thesis
      by (cases s) (simp add: record_call_def decr_active_def)
  next
    case (Some e)
    show ?thesis
    proof (cases "e = Empty")
      case True
      with Some close_all_Cons [OF Cons.prems, of close_res]
      show ?thesis
        by (cases s) (simp add: record_call_def)
    next
      case False
      with Some Cons.IH [OF p1] close_all_Cons [OF Cons.prems, of close_res]
      show ?thesis
        by (cases s) (simp add: record_call_def)
    qed
  qed
qed

text \<open>
  When no \<open>close\<close> before that of the last queued connection raises \<open>Empty\<close>, the loop
  reaches the end of the queue.
\<close>

lemma dropWhile_butlast:
  "\<forall>x \<in> set (butlast q). P x \<Longrightarrow> tl (dropWhile P q) = [] \<and> takeWhile P q @ take 1 (dropWhile P q) = q"
  by (induction q) (auto split: if_splits)

lemma close_all_whole_queue:
  assumes "\<forall>c \<in> set (butlast (pool s)). close_res c \<noteq> Some Empty"
  shows "pool (close_all close_res s) = []"
    and "calls (close_all close_res s) = calls s @ map Close (pool s)"
  using dropWhile_butlast [of "pool s" "\<lambda>c. close_res c \<noteq> Some Empty", OF assms]
  by (simp_all add: close_all_eq [OF refl])

lemma close_all_all_return:
  assumes "\<forall>c \<in> set (pool s). close_res c = None"
  shows "close_all close_res s =
     s\<lparr>pool := [], active_connections := active_connections s - int (length (pool s)),
       calls := calls s @ map Close (pool s)\<rparr>"
proof -
  from assms have tw: "takeWhile (\<lambda>c. close_res c \<noteq> Some Empty) (pool s) = pool s"
    and dw: "dropWhile (\<lambda>c. close_res c \<noteq> Some Empty) (pool s) = []"
    and fl: "filter (\<lambda>c. close_res c = None) (pool s) = pool s"
    by simp_all
  show ?thesis
    by (simp only: close_all_eq [OF refl] tw dw fl) simp
qed

text \<open>
  When every \<open>close\<close> raises something other than \<open>Empty\<close>, the queue is emptied all the
  same but the counter keeps its value.
\<close>

lemma close_all_close_raises:
  assumes "\<forall>c \<in> set (pool s). close_res c \<noteq> None \<and> close_res c \<noteq> Some Empty"
  shows "close_all close_res s = s\<lparr>pool := [], calls := calls s @ map Close (pool s)\<rparr>"
proof -
  from assms have tw: "takeWhile (\<lambda>c. close_res c \<noteq> Some Empty) (pool s) = pool s"
    and dw: "dropWhile (\<lambda>c. close_res c \<noteq> Some Empty) (pool s) = []"
    and fl: "filter (\<lambda>c. close_res c = None) (pool s) = []"
    by simp_all
  show ?thesis
    by (simp only: close_all_eq [OF refl] tw dw fl) simp
qed

text \<open>
  C7 fails as stated. A pool of capacity 1 has handed out its one connection, which is
  still checked out. \<open>close_all\<close> finds the queue empty and changes nothing; the
  following \<open>get_connection\<close> does not open a connection but raises
  \<open>TimeoutException\<close>. And a queue \<open>[4, 5]\<close> is not closed in full when \<open>close\<close> raises
  \<open>Empty\<close>: the loop ends after connection 4 and leaves 5 queued, unclosed.
\<close>

theorem close_all_then_get_counterexample:
  "close_all close_returns (run [Get (Inr 1) None] (connection_pool_init 1))
     = \<lparr>max_connections = 1, pool = [], active_connections = 1, calls = [Connect]\<rparr> \<and>
   get_connection (Inr 2) None
       (close_all close_returns (run [Get (Inr 1) None] (connection_pool_init 1)))
     = (Inl TimeoutException,
        \<lparr>max_connections = 1, pool = [], active_connections = 1, calls = [Connect]\<rparr>) \<and>
   close_all close_raises_Empty
       \<lparr>max_connections = 2, pool = [4, 5], active_connections = 2, calls = []\<rparr>
     = \<lparr>max_connections = 2, pool = [5], active_connections = 2, calls = [Close 4]\<rparr>"
  by (simp add: pool_defs connection_pool_init_def close_all_Nil close_all_eq [OF refl]
        close_raises_Empty_def)

text \<open>
  C7, amended. Unless \<open>close\<close> raises \<open>queue.Empty\<close> for a queued connection other than
  the last, \<open>close_all\<close> calls \<open>close\<close> on every connection of the queue, in queue order,
  and leaves the queue empty. When every \<open>close\<close> returns, the counter is lowered once
  per queued connection. When the queue has been emptied and the counter is below
  \<open>max_connections\<close> afterwards, a following \<open>get_connection\<close> whose \<open>connect\<close> returns
  \<open>c\<close> calls \<open>connect\<close>, raises the counter by one and returns \<open>c\<close>.
\<close>

theorem close_all_then_get:
  "max_connections (close_all close_res s) = max_connections s \<and>
   ((\<forall>c \<in> set (butlast (pool s)). close_res c \<noteq> Some Empty) \<longrightarrow>
      pool (close_all close_res s) = [] \<and>
      calls (close_all close_res s) = calls s @ map Close (pool s)) \<and>
   ((\<forall>c \<in> set (pool s). close_res c = None) \<longrightarrow>
      active_connections (close_all close_res s) = active_connections s - int (length (pool s))) \<and>
   ((\<forall>c \<in> set (butlast (pool s)). close_res c \<noteq> Some Empty) \<and>
    active_connections (close_all close_res s) < max_connections s \<longrightarrow>
      get_connection (Inr c) waited (close_all close_res s)
        = (Inr c, record_call Connect (incr_active (close_all close_res s))))"
proof -
  have m: "max_connections (close_all close_res s) = max_connections s"
    by (simp add: close_all_eq [OF refl])
  have g: "get_connection (Inr c) waited t = (Inr c, record_call Connect (incr_active t))"
    if "pool t = []" and "active_connections t < max_connections t" for t
    using that by (simp add: get_connection_def queue_get_nowait_def)
  show ?thesis
    using m g [of "close_all close_res s"]
    by (simp add: close_all_whole_queue close_all_all_return)
qed

theorem close_all_then_get_witness:
  "close_all close_returns
       \<lparr>max_connections = 2, pool = [1, 2], active_connections = 2, calls = []\<rparr>
     = \<lparr>max_connections = 2, pool = [], active_connections = 0, calls = [Close 1, Close 2]\<rparr> \<and>
   get_connection (Inr 3) None
       (close_all close_returns
          \<lparr>max_connections = 2, pool = [1, 2], active_connections = 2, calls = []\<rparr>)
     = (Inr 3, \<lparr>max_connections = 2, pool = [], active_connections = 1,
                calls = [Close 1, Close 2, Connect]\<rparr>)"
proof -
  let ?s = "\<lparr>max_connections = 2, pool = [1, 2], active_connections = 2, calls = []\<rparr>"
  have eq: "close_all close_returns ?s
      = \<lparr>max_connections = 2, pool = [], active_connections = 0, calls = [Close 1, Close 2]\<rparr>"
    by (simp add: close_all_eq [OF refl] close_returns_def)
  from close_all_then_get [of close_returns ?s 3 None] show ?thesis
    by (simp add: eq close_returns_def record_call_def incr_active_def)
qed




subsection \<open>\<open>execute_query\<close>\<close>

text \<open>
  A key that is not in the dictionary yet goes to its end; the dictionary of a row is
  the list of (column name, value) pairs when the column names are distinct. In general
  the value stored last under a name is the one the dictionary holds.
\<close>

lemma update_fresh: "k \<notin> fst ` set d \<Longrightarrow> AList.update k v d = d @ [(k, v)]"
  by (induction d) auto

lemma row_dict_distinct:
  "distinct cols \<Longrightarrow> length cols \<le> length row \<Longrightarrow> set cols \<inter> fst ` set d = {} \<Longrightarrow>
   row_dict cols row d = Inr (d @ zip cols row)"
proof (induction cols row d rule: row_dict.induct)
  case (1 row d)
  then show ?case by simp
next
  case (2 col_name cols d)
  then show ?case by simp
next
  case (3 col_name cols v vs d)
  from "3.prems" have fresh: "col_name \<notin> fst ` set d" by auto
  from "3.prems" have "set cols \<inter> fst ` set (d @ [(col_name, v)]) = {}" by auto
  with "3.IH" "3.prems" fresh show ?case
    by (simp add: update_fresh)
qed

lemma row_dict_map_of:
  "row_dict cols row d = Inr d' \<Longrightarrow> map_of d' = map_of d ++ map_of (rev (zip cols row))"
proof (induction cols row d rule: row_dict.induct)
  case (1 row d)
  then show ?case by simp
next
  case (2 col_name cols d)
  then show ?case by simp
next
  case (3 col_name cols v vs d)
  then show ?case
    by (simp add: update_conv' map_of_append fun_eq_iff map_add_def split: option.splits)
qed

lemma result_dicts_distinct:
  "distinct cols \<Longrightarrow> \<forall>row \<in> set rows. length cols \<le> length row \<Longrightarrow>
   result_dicts cols rows = Inr (map (zip cols) rows)"
  by (induction rows) (simp_all add: row_dict_distinct)

lemma release_connection_probed: "Probe c \<in> set (calls (snd (release_connection c probe close_res s)))"
  by (simp add: pool_defs Let_def split: option.splits sum.splits)


text \<open>
  C9. Once \<open>get_connection\<close> has returned a connection \<open>c\<close>, \<open>execute_query\<close> runs
  the query on it and then, in every case, sends \<open>c\<close> through \<open>release_connection\<close>:
  the pool it leaves is the one \<open>release_connection\<close> leaves, and the probe of \<open>c\<close> is
  among the driver calls. When the query raises \<open>e\<close>, \<open>e\<close> is what leaves
  \<open>execute_query\<close>. When it yields column names (distinct) and rows (each with a value
  for every column), the result is the list, in row order, of the rows' mappings from
  column name to value.
\<close>

theorem execute_query_releases:
  assumes "get_connection connect_res waited s = (Inr c, s1)"
  shows "snd (execute_query query params connect_res waited cursor_res probe close_res s)
           = snd (release_connection c probe close_res (record_call (Execute c) s1)) \<and>
         Probe c \<in> set (calls
            (snd (execute_query query params connect_res waited cursor_res probe close_res s))) \<and>
         (\<forall>e. cursor_res query (truthy_params params) = Inl e \<longrightarrow>
            fst (execute_query query params connect_res waited cursor_res probe close_res s)
              = Inl e) \<and>
         (\<forall>names rows. cursor_res query (truthy_params params) = Inr (Some names, rows) \<and>
              distinct names \<and> (\<forall>row \<in> set rows. length names \<le> length row) \<longrightarrow>
            fst (execute_query query params connect_res waited cursor_res probe close_res s)
              = Inr (map (zip names) rows))"
  using assms
  by (simp add: execute_query_def Let_def result_dicts_distinct release_connection_probed)


theorem execute_query_releases_witness:
  "get_connection (Inr 7) None (connection_pool_init 2)
     = (Inr 7, \<lparr>max_connections = 2, pool = [], active_connections = 1, calls = [Connect]\<rparr>) \<and>
   execute_query ''SELECT code, name FROM t'' None (Inr 7) None
       (\<lambda>q p. Inr (Some [''code'', ''name''], [[''US'', ''Dollar''], [''JP'', ''Yen'']]))
       None None (connection_pool_init 2)
     = (Inr [[(''code'', ''US''), (''name'', ''Dollar'')], [(''code'', ''JP''), (''name'', ''Yen'')]],
        \<lparr>max_connections = 2, pool = [7], active_connections = 1,
           calls = [Connect, Execute 7, Probe 7]\<rparr>) \<and>
   execute_query ''SELEC'' None (Inr 7) None
       (\<lambda>q p. Inl (DriverError ''syntax error'') :: exn + string list option \<times> string list list)
       (Some (DriverError ''session gone'')) None (connection_pool_init 2)
     = (Inl (DriverError ''syntax error''),
        \<lparr>max_connections = 2, pool = [], active_connections = 0,
           calls = [Connect, Execute 7, Probe 7, Close 7]\<rparr>)"
proof -
  let ?s1 = "\<lparr>max_connections = 2, pool = [], active_connections = 1, calls = [Connect]\<rparr>"
  have got: "get_connection (Inr 7) None (connection_pool_init 2) = (Inr 7, ?s1)"
    by (simp add: pool_defs connection_pool_init_def)
  from got
    execute_query_releases [OF got, of "''SELECT code, name FROM t''" None
      "\<lambda>q p. Inr (Some [''code'', ''name''], [[''US'', ''Dollar''], [''JP'', ''Yen'']])" None None]
    execute_query_releases [OF got, of "''SELEC''" None
      "\<lambda>q p. Inl (DriverError ''syntax error'') :: exn + string list option \<times> string list list"
      "Some (DriverError ''session gone'')" None]
  show ?thesis
    by (simp add: prod_eq_iff pool_defs)
qed

end
